theory Spec2Isabelle
  imports Complex_Main "HOL-Library.Option_ord"
begin

section \<open>Grid model\<close>

text \<open>
  The module \<^verbatim>\<open>optimize_antenna_placement.py\<close> works on one hardcoded floor plan,
  a 6 by 10 array of walls (1) and empty cells (0). Coordinates are (row, column) pairs
  of Python integers. Floating point numbers are idealised as reals throughout.
\<close>

type_synonym cell = "int \<times> int"
type_synonym placement = "cell list"

definition warehouse_map :: "int list list" where
  "warehouse_map =
    [[1, 1, 1, 1, 1, 1, 1, 1, 1, 1],
     [1, 0, 0, 0, 1, 0, 0, 0, 0, 1],
     [1, 0, 1, 0, 1, 0, 1, 1, 0, 1],
     [1, 0, 0, 0, 0, 0, 0, 0, 0, 1],
     [1, 0, 0, 0, 1, 0, 0, 0, 0, 1],
     [1, 1, 1, 1, 1, 1, 1, 1, 1, 1]]"

text \<open>\<^verbatim>\<open>ndarray.shape\<close> of a rectangular two-dimensional array.\<close>

definition shape :: "int list list \<Rightarrow> int \<times> int" where
  "shape g = (int (length g), (case g of [] \<Rightarrow> 0 | row # _ \<Rightarrow> int (length row)))"

definition map_size :: "int \<times> int" where
  "map_size = shape warehouse_map"

text \<open>
  \<^verbatim>\<open>g[x, y]\<close>. Every read in the source sits behind a bounds guard (or inside the
  interior scan), so numpy's wrap-around of negative indices is never reached.
\<close>

definition grid_at :: "int list list \<Rightarrow> cell \<Rightarrow> int" where
  "grid_at g c = g ! nat (fst c) ! nat (snd c)"

text \<open>\<^verbatim>\<open>np.argwhere(warehouse_map == 0)\<close>: the FREE cells in row-major order.\<close>

definition valid_positions :: "cell list" where
  "valid_positions =
     concat (map (\<lambda>x. concat (map (\<lambda>y. if grid_at warehouse_map (x, y) = 0 then [(x, y)] else [])
                                   [0 .. snd map_size - 1]))
                 [0 .. fst map_size - 1])"

definition valid_set :: "cell set" where
  "valid_set = set valid_positions"

section \<open>Critical zones\<close>

text \<open>
  The double loop at the head of \<^verbatim>\<open>compute_coverage\<close>: it scans the interior cells
  \<^verbatim>\<open>range(1, H - 1)\<close> by \<^verbatim>\<open>range(1, W - 1)\<close> and writes 1 into a zero array.
\<close>

definition mark_critical :: "int \<Rightarrow> int \<Rightarrow> (cell \<Rightarrow> real) \<Rightarrow> (cell \<Rightarrow> real)" where
  "mark_critical x y cz =
     (if grid_at warehouse_map (x, y) = 0 then
        (if (grid_at warehouse_map (x - 1, y) = 1 \<and> grid_at warehouse_map (x + 1, y) = 1
               \<and> grid_at warehouse_map (x, y - 1) = 0 \<and> grid_at warehouse_map (x, y + 1) = 0)
            \<or> (grid_at warehouse_map (x, y - 1) = 1 \<and> grid_at warehouse_map (x, y + 1) = 1
               \<and> grid_at warehouse_map (x - 1, y) = 0 \<and> grid_at warehouse_map (x + 1, y) = 0)
         then cz((x, y) := 1) else cz)
      else cz)"

definition critical_zones :: "cell \<Rightarrow> real" where
  "critical_zones =
     fold (\<lambda>x. fold (\<lambda>y. mark_critical x y) [1 .. snd map_size - 2])
          [1 .. fst map_size - 2] (\<lambda>_. 0)"

section \<open>Coverage evaluator\<close>

text \<open>
  A float array of the grid's shape, such as \<^verbatim>\<open>coverage_map\<close>, is a function from
  cells to reals that starts as the zero function; every write of the source sits behind
  a bounds guard, so the cells outside the grid keep the value 0.
\<close>

definition signalrange :: real where
  "signalrange = 46 / 100"

text \<open>
  The reflection step: each of the two mirrored cells that is in bounds and a wall
  receives half of the signal.
\<close>

definition reflect :: "int list list \<Rightarrow> real \<Rightarrow> cell \<Rightarrow> (cell \<Rightarrow> real) \<Rightarrow> (cell \<Rightarrow> real)" where
  "reflect g amount r cm =
     (if 0 \<le> fst r \<and> fst r < fst (shape g) \<and> 0 \<le> snd r \<and> snd r < snd (shape g) then
        (if grid_at g r = 1 then cm(r := cm r + amount / 2) else cm)
      else cm)"

text \<open>
  The body of the innermost loop of \<^verbatim>\<open>compute_coverage\<close> for the emitter \<open>(x, y)\<close>
  and the offset \<open>(i, j)\<close>. The decay law is the argument \<open>law\<close>; the source's is
  \<open>coverage_decay\<close> below.
\<close>

definition coverage_offset ::
  "(real \<Rightarrow> real) \<Rightarrow> real \<Rightarrow> int \<Rightarrow> int \<Rightarrow> int \<Rightarrow> int \<Rightarrow> (cell \<Rightarrow> real) \<Rightarrow> (cell \<Rightarrow> real)" where
  "coverage_offset law critical_zone_weight x y i j cm =
     (let nx = x + i; ny = y + j in
      if 0 \<le> nx \<and> nx < fst map_size \<and> 0 \<le> ny \<and> ny < snd map_size
           \<and> grid_at warehouse_map (nx, ny) = 0 then
        (let distance = sqrt (of_int (i\<^sup>2 + j\<^sup>2)) in
         if distance < 8 then
           (let decay = law distance;
                cm1 = cm((nx, ny) := cm (nx, ny) + decay);
                cm2 = (if grid_at warehouse_map (nx, ny) = 0
                       then fold (reflect warehouse_map decay) [(nx, 2 * ny - y), (2 * nx - x, ny)] cm1
                       else cm1)
            in if critical_zones (nx, ny) \<noteq> 0
               then cm2((nx, ny) := cm2 (nx, ny) + critical_zone_weight)
               else cm2)
         else cm)
      else cm)"

definition coverage_emitter ::
  "(real \<Rightarrow> real) \<Rightarrow> real \<Rightarrow> cell \<Rightarrow> (cell \<Rightarrow> real) \<Rightarrow> (cell \<Rightarrow> real)" where
  "coverage_emitter law critical_zone_weight a cm =
     fold (\<lambda>i. fold (\<lambda>j. coverage_offset law critical_zone_weight (fst a) (snd a) i j) [-4 .. 4])
          [-4 .. 4] cm"

definition coverage_with :: "(real \<Rightarrow> real) \<Rightarrow> real \<Rightarrow> placement \<Rightarrow> (cell \<Rightarrow> real)" where
  "coverage_with law critical_zone_weight antennas =
     fold (coverage_emitter law critical_zone_weight) antennas (\<lambda>_. 0)"

text \<open>\<^verbatim>\<open>decay = np.exp(-distance / signalrange)\<close>\<close>

definition coverage_decay :: "real \<Rightarrow> real" where
  "coverage_decay distance = exp (- distance / signalrange)"

text \<open>The array \<^verbatim>\<open>coverage_map\<close> once the propagation loop of \<^verbatim>\<open>compute_coverage\<close> is done.\<close>

definition coverage_map :: "real \<Rightarrow> placement \<Rightarrow> (cell \<Rightarrow> real)" where
  "coverage_map critical_zone_weight antennas =
     coverage_with coverage_decay critical_zone_weight antennas"

text \<open>
  \<^verbatim>\<open>np.mean(coverage_map[valid_mask])\<close>: the boolean mask selects the values at the FREE
  cells in row-major order. (On an empty selection numpy returns nan; the reference grid
  has 26 FREE cells.)
\<close>

definition mean :: "real list \<Rightarrow> real" where
  "mean xs = sum_list xs / real (length xs)"

definition valid_mask :: "cell \<Rightarrow> bool" where
  "valid_mask c = (grid_at warehouse_map c = 0)"

definition masked :: "(cell \<Rightarrow> real) \<Rightarrow> real list" where
  "masked cm =
     concat (map (\<lambda>x. concat (map (\<lambda>y. if valid_mask (x, y) then [cm (x, y)] else [])
                                   [0 .. snd map_size - 1]))
                 [0 .. fst map_size - 1])"

definition coverage_score :: "(cell \<Rightarrow> real) \<Rightarrow> real" where
  "coverage_score cm = mean (masked cm)"

text \<open>
  \<^verbatim>\<open>cdist(antennas, antennas)\<close>, then \<^verbatim>\<open>np.fill_diagonal(distances, np.inf)\<close>: the
  infinite distance is \<open>None\<close>, and \<^verbatim>\<open>np.exp(-inf / 3)\<close> is 0.
\<close>

definition euclidean :: "cell \<Rightarrow> cell \<Rightarrow> real" where
  "euclidean a b = sqrt (of_int ((fst a - fst b)\<^sup>2 + (snd a - snd b)\<^sup>2))"

definition cdist :: "placement \<Rightarrow> placement \<Rightarrow> real list list" where
  "cdist xa xb = map (\<lambda>a. map (\<lambda>b. euclidean a b) xb) xa"

definition fill_diagonal :: "real list list \<Rightarrow> real option list list" where
  "fill_diagonal m =
     map (\<lambda>(i, row). map (\<lambda>(j, d). if i = j then None else Some d) (enumerate 0 row))
         (enumerate 0 m)"

definition exp_neg_third :: "real option \<Rightarrow> real" where
  "exp_neg_third d = (case d of None \<Rightarrow> 0 | Some r \<Rightarrow> exp (- r / 3))"

definition repulsion_score :: "placement \<Rightarrow> real" where
  "repulsion_score antennas =
     sum_list (map (\<lambda>row. sum_list (map exp_neg_third row))
                   (fill_diagonal (cdist antennas antennas)))"

definition compute_coverage :: "placement \<Rightarrow> real \<Rightarrow> real \<Rightarrow> real" where
  "compute_coverage antennas repulsion_weight critical_zone_weight =
     coverage_score (coverage_map critical_zone_weight antennas)
       - repulsion_weight * repulsion_score antennas"

section \<open>Heatmap\<close>

text \<open>
  The propagation loop of \<^verbatim>\<open>plot_coverage_heatmap\<close>, which takes the grid as an
  argument and has no distance test and no critical zones. Its decay law is
  \<open>heatmap_decay\<close>.
\<close>

definition heatmap_offset ::
  "(real \<Rightarrow> real) \<Rightarrow> int list list \<Rightarrow> int \<Rightarrow> int \<Rightarrow> int \<Rightarrow> int \<Rightarrow> (cell \<Rightarrow> real) \<Rightarrow> (cell \<Rightarrow> real)" where
  "heatmap_offset law g x y i j cm =
     (let nx = x + i; ny = y + j in
      if 0 \<le> nx \<and> nx < fst (shape g) \<and> 0 \<le> ny \<and> ny < snd (shape g) then
        (if grid_at g (nx, ny) = 0 then
           (let signal_strength = law (sqrt (of_int (i\<^sup>2 + j\<^sup>2)));
                cm1 = cm((nx, ny) := cm (nx, ny) + signal_strength)
            in if grid_at g (nx, ny) = 0
               then fold (reflect g signal_strength) [(nx, 2 * ny - y), (2 * nx - x, ny)] cm1
               else cm1)
         else cm)
      else cm)"

definition heatmap_with :: "(real \<Rightarrow> real) \<Rightarrow> int list list \<Rightarrow> placement \<Rightarrow> (cell \<Rightarrow> real)" where
  "heatmap_with law g antennas =
     fold (\<lambda>ant. fold (\<lambda>i. fold (\<lambda>j. heatmap_offset law g (fst ant) (snd ant) i j) [-4 .. 4])
                       [-4 .. 4])
          antennas (\<lambda>_. 0)"

text \<open>\<^verbatim>\<open>signal_strength = np.exp(-np.sqrt(i**2 + j**2) / 2)\<close>\<close>

definition heatmap_decay :: "real \<Rightarrow> real" where
  "heatmap_decay distance = exp (- distance / 2)"

definition plot_coverage_heatmap :: "int list list \<Rightarrow> placement \<Rightarrow> (cell \<Rightarrow> real)" where
  "plot_coverage_heatmap g antennas = heatmap_with heatmap_decay g antennas"

section \<open>Swarm optimizer\<close>

text \<open>
  The module-level state of the main loop. \<^verbatim>\<open>particles\<close> is an integer array of shape
  (num_particles, num_ants, 2), \<^verbatim>\<open>velocity\<close> a float array of the same shape; both are
  lists of lists of pairs here, and the two loop bounds \<^verbatim>\<open>num_particles\<close> and
  \<^verbatim>\<open>num_ants\<close> are the lengths of these lists. \<^verbatim>\<open>best_fitness\<close> starts at
  \<^verbatim>\<open>-np.inf\<close>, which is \<open>None\<close>, the least element of the order on \<open>real option\<close>.
\<close>

datatype error = ValueError | TypeError

record swarm =
  particles :: "placement list"
  velocity :: "(real \<times> real) list list"
  global_best :: "placement option"
  best_fitness :: "real option"
  fitness_history :: "real option list"

definition w :: real where
  "w = 5 / 10"

definition c1 :: real where
  "c1 = 15 / 10"

definition c2 :: real where
  "c2 = 15 / 10"

text \<open>
  \<^verbatim>\<open>valid_positions[np.random.choice(len(valid_positions), (num_particles, num_ants))]\<close>:
  the drawn index matrix is the argument \<open>choice\<close>; its entries are below
  \<open>length valid_positions\<close>.
\<close>

definition init_swarm :: "nat list list \<Rightarrow> swarm" where
  "init_swarm choice =
     \<lparr> particles = map (map (\<lambda>k. valid_positions ! k)) choice,
       velocity = map (map (\<lambda>k. (0, 0))) choice,
       global_best = None,
       best_fitness = None,
       fitness_history = [] \<rparr>"

text \<open>\<^verbatim>\<open>np.max\<close> and \<^verbatim>\<open>np.argmax\<close> (first occurrence); both raise on an empty array.\<close>

definition np_max :: "real list \<Rightarrow> error + real" where
  "np_max xs = (case xs of [] \<Rightarrow> Inl ValueError | x # rest \<Rightarrow> Inr (fold max rest x))"

definition np_argmax :: "real list \<Rightarrow> error + nat" where
  "np_argmax xs =
     (case np_max xs of Inl e \<Rightarrow> Inl e
      | Inr m \<Rightarrow> Inr (length (takeWhile (\<lambda>v. v \<noteq> m) xs)))"

text \<open>
  \<^verbatim>\<open>w * velocity + c1 * r1 * (particles - global_best) + c2 * r2 * (particles - global_best)\<close>,
  with \<^verbatim>\<open>global_best\<close> broadcast over the particles.
\<close>

definition velocity_coord :: "real \<Rightarrow> real \<Rightarrow> real \<Rightarrow> int \<Rightarrow> int \<Rightarrow> real" where
  "velocity_coord r1 r2 v p g =
     w * v + c1 * r1 * (of_int p - of_int g) + c2 * r2 * (of_int p - of_int g)"

definition velocity_emitter :: "real \<Rightarrow> real \<Rightarrow> real \<times> real \<Rightarrow> cell \<Rightarrow> cell \<Rightarrow> real \<times> real" where
  "velocity_emitter r1 r2 v p g =
     (velocity_coord r1 r2 (fst v) (fst p) (fst g), velocity_coord r1 r2 (snd v) (snd p) (snd g))"

definition update_velocity ::
  "real \<Rightarrow> real \<Rightarrow> (real \<times> real) list list \<Rightarrow> placement list \<Rightarrow> placement \<Rightarrow> (real \<times> real) list list" where
  "update_velocity r1 r2 vel parts gb =
     map2 (\<lambda>vs ps. map (\<lambda>(v, p, g). velocity_emitter r1 r2 v p g) (zip vs (zip ps gb))) vel parts"

text \<open>\<^verbatim>\<open>np.round(...).astype(int)\<close>: numpy rounds halves to the even neighbour.\<close>

definition np_round :: "real \<Rightarrow> int" where
  "np_round x =
     (let f = \<lfloor>x\<rfloor>; d = x - of_int f in
      if d < 1 / 2 then f else if 1 / 2 < d then f + 1 else if even f then f else f + 1)"

definition move_emitter :: "cell \<Rightarrow> real \<times> real \<Rightarrow> cell" where
  "move_emitter p v = (np_round (of_int (fst p) + fst v), np_round (of_int (snd p) + snd v))"

definition new_positions :: "placement list \<Rightarrow> (real \<times> real) list list \<Rightarrow> placement list" where
  "new_positions parts vel = map2 (\<lambda>ps vs. map2 move_emitter ps vs) parts vel"

text \<open>The repair loop: an emitter whose candidate pair is not in \<^verbatim>\<open>valid_set\<close> keeps its old pair.\<close>

definition repair_emitter :: "cell \<Rightarrow> cell \<Rightarrow> cell" where
  "repair_emitter new old = (if new \<notin> valid_set then old else new)"

definition repair :: "placement list \<Rightarrow> placement list \<Rightarrow> placement list" where
  "repair new_parts parts = map2 (\<lambda>ns os. map2 repair_emitter ns os) new_parts parts"

text \<open>
  One pass of the main loop, with the two random scalars of the iteration as argument.
  \<^verbatim>\<open>np.max\<close> of an empty fitness array raises, and so does the subtraction of
  \<^verbatim>\<open>global_best\<close> while it is still \<^verbatim>\<open>None\<close>.
\<close>

definition iterate :: "real \<times> real \<Rightarrow> swarm \<Rightarrow> error + swarm" where
  "iterate r s =
     (let fitness = map (\<lambda>p. compute_coverage p (7 / 10) (18 / 10)) (particles s) in
      case np_max fitness of Inl e \<Rightarrow> Inl e
      | Inr m \<Rightarrow>
        (case (if best_fitness s < Some m
               then (case np_argmax fitness of Inl e \<Rightarrow> Inl e
                     | Inr k \<Rightarrow> Inr (s\<lparr>best_fitness := Some m,
                                         global_best := Some (particles s ! k)\<rparr>))
               else Inr s)
         of Inl e \<Rightarrow> Inl e
         | Inr s1 \<Rightarrow>
           (let s2 = s1\<lparr>fitness_history := fitness_history s1 @ [best_fitness s1]\<rparr> in
            case global_best s2 of None \<Rightarrow> Inl TypeError
            | Some gb \<Rightarrow>
              (let vel = update_velocity (fst r) (snd r) (velocity s2) (particles s2) gb;
                   new_particles = new_positions (particles s2) vel
               in Inr (s2\<lparr>velocity := vel,
                           particles := repair new_particles (particles s2)\<rparr>)))))"

text \<open>The loop \<^verbatim>\<open>for _ in range(num_iters)\<close>: one pair of random scalars per iteration.\<close>

fun run :: "(real \<times> real) list \<Rightarrow> swarm \<Rightarrow> error + swarm" where
  "run [] s = Inr s"
| "run (r # rs) s = (case iterate r s of Inl e \<Rightarrow> Inl e | Inr s' \<Rightarrow> run rs s')"

text \<open>
  After the loop: \<^verbatim>\<open>plot_coverage_heatmap(warehouse_map, global_best)\<close>, whose loop over
  the antennas raises when \<^verbatim>\<open>global_best\<close> is \<^verbatim>\<open>None\<close>.
\<close>

definition final_coverage_map :: "swarm \<Rightarrow> error + (cell \<Rightarrow> real)" where
  "final_coverage_map s =
     (case global_best s of None \<Rightarrow> Inl TypeError
      | Some gb \<Rightarrow> Inr (plot_coverage_heatmap warehouse_map gb))"

section \<open>Reference formulas and proof devices\<close>

text \<open>
  The velocity rule as the design document words it, with both terms pulling toward
  the global best: \<^verbatim>\<open>w*velocity + c1*r1*(global_best - position) + c2*r2*(global_best - position)\<close>.
  It is compared with \<open>velocity_coord\<close> below.
\<close>

definition velocity_spec_coord :: "real \<Rightarrow> real \<Rightarrow> real \<Rightarrow> int \<Rightarrow> int \<Rightarrow> real" where
  "velocity_spec_coord r1 r2 v p g =
     w * v + c1 * r1 * (of_int g - of_int p) + c2 * r2 * (of_int g - of_int p)"

text \<open>
  What one pass of an accumulation loop adds at a given cell \<open>c\<close>. These functions are
  proof devices: the lemmas \<open>coverage_offset_at\<close> and \<open>heatmap_offset_at\<close> show that
  the loops of the source add exactly these amounts.
\<close>

definition reflect_gain :: "int list list \<Rightarrow> real \<Rightarrow> cell \<Rightarrow> cell \<Rightarrow> real" where
  "reflect_gain g amount r c =
     (if 0 \<le> fst r \<and> fst r < fst (shape g) \<and> 0 \<le> snd r \<and> snd r < snd (shape g)
         \<and> grid_at g r = 1 \<and> c = r
      then amount / 2 else 0)"

definition offset_gain ::
  "(real \<Rightarrow> real) \<Rightarrow> real \<Rightarrow> int \<Rightarrow> int \<Rightarrow> int \<Rightarrow> int \<Rightarrow> cell \<Rightarrow> real" where
  "offset_gain law critical_zone_weight x y i j c =
     (if 0 \<le> x + i \<and> x + i < fst map_size \<and> 0 \<le> y + j \<and> y + j < snd map_size
         \<and> grid_at warehouse_map (x + i, y + j) = 0 \<and> sqrt (of_int (i\<^sup>2 + j\<^sup>2)) < 8
      then (if c = (x + i, y + j) then law (sqrt (of_int (i\<^sup>2 + j\<^sup>2))) else 0)
           + reflect_gain warehouse_map (law (sqrt (of_int (i\<^sup>2 + j\<^sup>2)))) (x + i, 2 * (y + j) - y) c
           + reflect_gain warehouse_map (law (sqrt (of_int (i\<^sup>2 + j\<^sup>2)))) (2 * (x + i) - x, y + j) c
           + (if critical_zones (x + i, y + j) \<noteq> 0 \<and> c = (x + i, y + j)
              then critical_zone_weight else 0)
      else 0)"

definition heatmap_gain ::
  "(real \<Rightarrow> real) \<Rightarrow> int list list \<Rightarrow> int \<Rightarrow> int \<Rightarrow> int \<Rightarrow> int \<Rightarrow> cell \<Rightarrow> real" where
  "heatmap_gain law g x y i j c =
     (if 0 \<le> x + i \<and> x + i < fst (shape g) \<and> 0 \<le> y + j \<and> y + j < snd (shape g)
         \<and> grid_at g (x + i, y + j) = 0
      then (if c = (x + i, y + j) then law (sqrt (of_int (i\<^sup>2 + j\<^sup>2))) else 0)
           + reflect_gain g (law (sqrt (of_int (i\<^sup>2 + j\<^sup>2)))) (x + i, 2 * (y + j) - y) c
           + reflect_gain g (law (sqrt (of_int (i\<^sup>2 + j\<^sup>2)))) (2 * (x + i) - x, y + j) c
      else 0)"

text \<open>The summand of the repulsion score for the ordered pair of indices \<open>(i, j)\<close>.\<close>

definition pair_term :: "placement \<Rightarrow> nat \<Rightarrow> nat \<Rightarrow> real" where
  "pair_term ants i j = (if i = j then 0 else exp (- euclidean (ants ! i) (ants ! j) / 3))"

text \<open>
  The fitness array of an iteration, and two invariants of the main loop used in the
  proofs: \<open>steady\<close> (the arrays keep their length, a global best exists once the best
  fitness is finite, the history is sorted, finite and bounded by the best fitness) and
  \<open>shaped\<close> (every particle, velocity row and global best has \<open>K\<close> emitters).
\<close>

definition fitness_of :: "swarm \<Rightarrow> real list" where
  "fitness_of s = map (\<lambda>p. compute_coverage p (7 / 10) (18 / 10)) (particles s)"

definition steady :: "swarm \<Rightarrow> bool" where
  "steady s \<longleftrightarrow>
     length (velocity s) = length (particles s) \<and> particles s \<noteq> []
     \<and> (best_fitness s = None \<or> global_best s \<noteq> None)
     \<and> sorted (fitness_history s) \<and> None \<notin> set (fitness_history s)
     \<and> (\<forall>h\<in>set (fitness_history s). h \<le> best_fitness s)"

definition shaped :: "nat \<Rightarrow> swarm \<Rightarrow> bool" where
  "shaped K s \<longleftrightarrow>
     (\<forall>p\<in>set (particles s). length p = K) \<and> (\<forall>v\<in>set (velocity s). length v = K)
     \<and> (\<forall>gb. global_best s = Some gb \<longrightarrow> length gb = K)"

section \<open>Facts about the reference grid\<close>

lemma map_size_eq: "map_size = (6, 10)"
  by (simp add: map_size_def shape_def warehouse_map_def)

lemma shape_warehouse: "shape warehouse_map = (6, 10)"
  by (simp add: shape_def warehouse_map_def)

lemma rows: "[0 .. 5] = [0, 1, 2, 3, 4, 5::int]"
  by (simp add: upto_rec1)

lemma cols: "[0 .. 9] = [0, 1, 2, 3, 4, 5, 6, 7, 8, 9::int]"
  by (simp add: upto_rec1)

lemma interior_rows: "[1 .. 4] = [1, 2, 3, 4::int]"
  by (simp add: upto_rec1)

lemma interior_cols: "[1 .. 8] = [1, 2, 3, 4, 5, 6, 7, 8::int]"
  by (simp add: upto_rec1)

lemma window: "[-4 .. 4] = [-4, -3, -2, -1, 0, 1, 2, 3, 4::int]"
  by (simp add: upto_rec1)

declare upto_rec_numeral [simp del]

lemma valid_positions_eq:
  "valid_positions =
    [(1,1),(1,2),(1,3),(1,5),(1,6),(1,7),(1,8),
     (2,1),(2,3),(2,5),(2,8),
     (3,1),(3,2),(3,3),(3,4),(3,5),(3,6),(3,7),(3,8),
     (4,1),(4,2),(4,3),(4,5),(4,6),(4,7),(4,8)]"
  by (simp add: valid_positions_def map_size_eq grid_at_def warehouse_map_def rows cols)

lemma critical_zones_eq:
  "critical_zones =
     (\<lambda>_. 0)((1,2) := 1, (1,6) := 1, (1,7) := 1, (2,1) := 1, (2,3) := 1, (2,5) := 1,
               (2,8) := 1, (3,4) := 1)"
  by (simp add: critical_zones_def map_size_eq mark_critical_def grid_at_def warehouse_map_def
      interior_rows interior_cols)

lemma reflect_at: "reflect g amount r cm c = cm c + reflect_gain g amount r c"
  by (simp add: reflect_def reflect_gain_def)

lemma coverage_offset_at:
  "coverage_offset law czw x y i j cm c = cm c + offset_gain law czw x y i j c"
  by (simp add: coverage_offset_def offset_gain_def Let_def reflect_at)

lemma heatmap_offset_at:
  "heatmap_offset law g x y i j cm c = cm c + heatmap_gain law g x y i j c"
  by (simp add: heatmap_offset_def heatmap_gain_def Let_def reflect_at)

lemma fold_at:
  assumes "\<And>a cm. step a cm c = cm c + gain a"
  shows "fold step xs cm c = cm c + sum_list (map gain xs)"
  using assms by (induction xs arbitrary: cm) (simp_all add: add.assoc)

lemma coverage_emitter_at:
  "coverage_emitter law czw a cm c =
     cm c + (\<Sum>i\<leftarrow>[-4 .. 4]. \<Sum>j\<leftarrow>[-4 .. 4]. offset_gain law czw (fst a) (snd a) i j c)"
  unfolding coverage_emitter_def
  by (rule fold_at) (rule fold_at, rule coverage_offset_at)

lemma coverage_with_at:
  "coverage_with law czw ants c =
     (\<Sum>a\<leftarrow>ants. \<Sum>i\<leftarrow>[-4 .. 4]. \<Sum>j\<leftarrow>[-4 .. 4]. offset_gain law czw (fst a) (snd a) i j c)"
  unfolding coverage_with_def
  by (subst fold_at [where gain = "\<lambda>a. \<Sum>i\<leftarrow>[-4 .. 4]. \<Sum>j\<leftarrow>[-4 .. 4]. offset_gain law czw (fst a) (snd a) i j c"])
     (simp_all add: coverage_emitter_at)

lemma heatmap_emitter_at:
  "fold (\<lambda>i. fold (\<lambda>j. heatmap_offset law g x y i j) [-4 .. 4]) [-4 .. 4] cm c =
     cm c + (\<Sum>i\<leftarrow>[-4 .. 4]. \<Sum>j\<leftarrow>[-4 .. 4]. heatmap_gain law g x y i j c)"
  by (rule fold_at) (rule fold_at, rule heatmap_offset_at)

lemma heatmap_with_at:
  "heatmap_with law g ants c =
     (\<Sum>a\<leftarrow>ants. \<Sum>i\<leftarrow>[-4 .. 4]. \<Sum>j\<leftarrow>[-4 .. 4]. heatmap_gain law g (fst a) (snd a) i j c)"
  unfolding heatmap_with_def
  by (subst fold_at [where gain = "\<lambda>a. \<Sum>i\<leftarrow>[-4 .. 4]. \<Sum>j\<leftarrow>[-4 .. 4]. heatmap_gain law g (fst a) (snd a) i j c"])
     (simp_all add: heatmap_emitter_at)

lemma sum_window:
  "(\<Sum>i\<leftarrow>[-4 .. 4]. f i) = f (-4) + f (-3) + f (-2) + f (-1) + f 0 + f 1 + f 2 + f 3 + f (4::int)"
  unfolding window by (simp add: add.assoc)

section \<open>Critical zones of the reference grid\<close>

text \<open>
  Claim C10. On the hardcoded 6 by 10 grid the critical-zone array computed at the head
  of the evaluator is non-zero at exactly the eight cells (1,2), (1,6), (1,7), (2,1),
  (2,3), (2,5), (2,8) and (3,4); none of them lies on the border, which the scan never
  visits.
\<close>

theorem critical_zones_reference_grid:
  "{c. critical_zones c \<noteq> 0} = {(1,2), (1,6), (1,7), (2,1), (2,3), (2,5), (2,8), (3,4)}"
  by (auto simp: critical_zones_eq split: if_splits)

section \<open>The heatmap against the evaluator's map\<close>

text \<open>
  Claim C2. The final map is the heatmap of the global best, and the heatmap loop does not
  use the evaluator's propagation model: it decays the signal with exp(-d/2) where the
  evaluator uses exp(-d/signalrange) with signalrange = 0.46. For the placement [(1,1)]
  the cell (1,3), two columns from the emitter and not a critical cell, holds exp(-1) in
  the heatmap and exp(-2/0.46) = exp(-100/23) in the evaluator's map, whatever the
  critical-zone weight: the two maps are different arrays. The heatmap also adds no
  critical-zone bonus: with the emitter on the critical cell (1,2), at distance 0, it
  holds 1 there where the evaluator's map holds 1 + 1.8.
\<close>

theorem heatmap_differs_from_coverage_map:
  "final_coverage_map (s\<lparr>global_best := Some [(1,1)]\<rparr>)
     = Inr (plot_coverage_heatmap warehouse_map [(1,1)])
   \<and> plot_coverage_heatmap warehouse_map [(1,1)] (1,3) = exp (- 1)
   \<and> coverage_map critical_zone_weight [(1,1)] (1,3) = exp (- 100 / 23)
   \<and> plot_coverage_heatmap warehouse_map [(1,1)] \<noteq> coverage_map critical_zone_weight [(1,1)]
   \<and> plot_coverage_heatmap warehouse_map [(1,2)] (1,2) = 1
   \<and> coverage_map (18 / 10) [(1,2)] (1,2) = 28 / 10"
proof -
  have f: "final_coverage_map (s\<lparr>global_best := Some [(1,1)]\<rparr>)
      = Inr (plot_coverage_heatmap warehouse_map [(1,1)])"
    by (simp add: final_coverage_map_def)
  have h: "plot_coverage_heatmap warehouse_map [(1,1)] (1,3) = exp (- 1)"
    by (simp add: plot_coverage_heatmap_def heatmap_with_at sum_window heatmap_gain_def
        reflect_gain_def shape_def grid_at_def warehouse_map_def heatmap_decay_def)
  have e: "coverage_map critical_zone_weight [(1,1)] (1,3) = exp (- 100 / 23)"
    by (simp add: coverage_map_def coverage_with_at sum_window offset_gain_def reflect_gain_def
        shape_def map_size_def grid_at_def warehouse_map_def coverage_decay_def
        critical_zones_eq signalrange_def)
  have d: "plot_coverage_heatmap warehouse_map [(1,1)] \<noteq> coverage_map critical_zone_weight [(1,1)]"
  proof
    assume "plot_coverage_heatmap warehouse_map [(1,1)] = coverage_map critical_zone_weight [(1,1)]"
    then have "plot_coverage_heatmap warehouse_map [(1,1)] (1,3)
        = coverage_map critical_zone_weight [(1,1)] (1,3)"
      by simp
    with h e show False by simp
  qed
  have h0: "plot_coverage_heatmap warehouse_map [(1,2)] (1,2) = 1"
    by (simp add: plot_coverage_heatmap_def heatmap_with_at sum_window heatmap_gain_def
        reflect_gain_def shape_def grid_at_def warehouse_map_def heatmap_decay_def)
  have e0: "coverage_map (18 / 10) [(1,2)] (1,2) = 28 / 10"
    by (simp add: coverage_map_def coverage_with_at sum_window offset_gain_def reflect_gain_def
        shape_def map_size_def grid_at_def warehouse_map_def coverage_decay_def
        critical_zones_eq)
  from f h e d h0 e0 show ?thesis by (intro conjI)
qed

section \<open>Repulsion and fitness\<close>

lemma map_enumerate:
  "map f (enumerate 0 xs) = map (\<lambda>i. f (i, xs ! i)) [0 ..< length xs]"
  by (rule nth_equalityI) (simp_all add: nth_enumerate_eq)

lemma fill_diagonal_cdist:
  "fill_diagonal (cdist ants ants) =
     map (\<lambda>i. map (\<lambda>j. if i = j then None else Some (euclidean (ants ! i) (ants ! j)))
                   [0 ..< length ants])
         [0 ..< length ants]"
  by (simp add: fill_diagonal_def map_enumerate cdist_def)

lemma repulsion_score_sum:
  "repulsion_score ants = (\<Sum>i<length ants. \<Sum>j<length ants. pair_term ants i j)"
proof -
  have "repulsion_score ants =
      (\<Sum>i\<leftarrow>[0 ..< length ants]. \<Sum>j\<leftarrow>[0 ..< length ants]. pair_term ants i j)"
    by (simp add: repulsion_score_def fill_diagonal_cdist comp_def exp_neg_third_def pair_term_def
        if_distrib [of "case_option _ _"] cong: if_cong)
  also have "\<dots> = (\<Sum>i<length ants. \<Sum>j<length ants. pair_term ants i j)"
    by (simp add: interv_sum_list_conv_sum_set_nat atLeast0LessThan)
  finally show ?thesis .
qed


lemma euclidean_commute: "euclidean a b = euclidean b a"
  by (simp add: euclidean_def power2_commute)


text \<open>
  Claim C9, as stated, at a placement of a single emitter: there is no other emitter, so
  moving it from (1,1) to (1,2) moves it farther from every other emitter, and the
  repulsion score is 0 before and after; it does not decrease.
\<close>

theorem repulsion_single_emitter_constant:
  "repulsion_score [(1,1)] = 0 \<and> repulsion_score ([(1,1)][0 := (1,2)]) = 0
   \<and> \<not> repulsion_score ([(1,1)][0 := (1,2)]) < repulsion_score [(1,1)]"
  by (simp add: repulsion_score_def fill_diagonal_def cdist_def exp_neg_third_def)

text \<open>
  Claim C9, amended. In a placement of at least two emitters, replacing the emitter at
  index \<open>k\<close> by a cell that is strictly farther (in Euclidean distance) from every other
  emitter strictly decreases the repulsion score.
\<close>

theorem repulsion_strictly_decreases:
  assumes k: "k < length ants" and two: "2 \<le> length ants"
    and far: "\<forall>j<length ants. j \<noteq> k \<longrightarrow> euclidean (ants ! k) (ants ! j) < euclidean c (ants ! j)"
  shows "repulsion_score (ants[k := c]) < repulsion_score ants"
proof -
  let ?n = "length ants"
  let ?A = "{..<?n} \<times> {..<?n}"
  let ?f = "\<lambda>(i, j). pair_term (ants[k := c]) i j"
  let ?g = "\<lambda>(i, j). pair_term ants i j"
  have le: "?f p \<le> ?g p" if "p \<in> ?A" for p
  proof -
    obtain i j where p: "p = (i, j)" by (cases p)
    with that have ij: "i < ?n" "j < ?n" by auto
    consider "i = j" | "i \<noteq> j" "i = k" | "i \<noteq> j" "j = k" | "i \<noteq> j" "i \<noteq> k" "j \<noteq> k"
      by blast
    then show ?thesis
    proof cases
      case 1
      then show ?thesis by (simp add: p pair_term_def)
    next
      case 2
      with far ij have "euclidean (ants ! k) (ants ! j) < euclidean c (ants ! j)" by simp
      with 2 k show ?thesis by (simp add: p pair_term_def)
    next
      case 3
      with far ij have "euclidean (ants ! k) (ants ! i) < euclidean c (ants ! i)" by simp
      then have "euclidean (ants ! i) (ants ! k) < euclidean (ants ! i) c"
        by (simp add: euclidean_commute)
      with 3 k show ?thesis by (simp add: p pair_term_def)
    next
      case 4
      then show ?thesis by (simp add: p pair_term_def)
    qed
  qed
  define j0 where "j0 = (if k = 0 then 1 else (0::nat))"
  have j0: "j0 < ?n" "j0 \<noteq> k"
    using two by (auto simp: j0_def)
  have "?f (k, j0) < ?g (k, j0)"
    using j0 far k by (simp add: pair_term_def)
  moreover have "(k, j0) \<in> ?A" using k j0 by simp
  ultimately have "\<exists>a\<in>?A. ?f a < ?g a" by blast
  then have "sum ?f ?A < sum ?g ?A"
    using le by (intro sum_strict_mono_ex1) auto
  then show ?thesis
    by (simp add: repulsion_score_sum sum.cartesian_product)
qed


theorem repulsion_strictly_decreases_witness:
  "euclidean ([(1,1), (1,2)] ! 1) ([(1,1), (1,2)] ! 0) < euclidean (1,5) ([(1,1), (1,2)] ! 0)
   \<and> repulsion_score ([(1,1), (1,2)][1 := (1,5)]) < repulsion_score [(1,1), (1,2)]"
proof -
  have far: "euclidean ([(1,1), (1,2)] ! 1) ([(1,1), (1,2)] ! 0) < euclidean (1,5) ([(1,1), (1,2)] ! 0)"
    by (simp add: euclidean_def)
  then have "\<forall>j<length [(1,1), (1,2::int)]. j \<noteq> 1 \<longrightarrow>
      euclidean ([(1,1), (1,2)] ! 1) ([(1,1), (1,2)] ! j) < euclidean (1,5) ([(1,1), (1,2)] ! j)"
    by (simp add: less_Suc_eq)
  then have "repulsion_score ([(1,1), (1,2)][1 := (1,5)]) < repulsion_score [(1,1), (1,2)]"
    by (intro repulsion_strictly_decreases) simp_all
  with far show ?thesis by simp
qed

section \<open>Coverage score\<close>

lemma sqrt2_lt8: "sqrt 2 < 8"
  by (rule real_less_lsqrt) simp_all

lemma masked_eq: "masked cm = map cm valid_positions"
  by (simp add: masked_def valid_mask_def valid_positions_eq map_size_eq rows cols grid_at_def
      warehouse_map_def)

lemma coverage_score_eq:
  "coverage_score cm = sum_list (map cm valid_positions) / real (length valid_positions)"
  by (simp add: coverage_score_def mean_def masked_eq)






lemma reflect_gain_nonneg: "0 \<le> amount \<Longrightarrow> 0 \<le> reflect_gain g amount r c"
  by (simp add: reflect_gain_def)

lemma offset_gain_nonneg:
  assumes "\<And>d. 0 \<le> law d" "0 \<le> czw"
  shows "0 \<le> offset_gain law czw x y i j c"
  using assms by (simp add: offset_gain_def reflect_gain_nonneg)

lemma coverage_with_nonneg:
  assumes "\<And>d. 0 \<le> law d" "0 \<le> czw"
  shows "0 \<le> coverage_with law czw ants c"
  unfolding coverage_with_at
  by (intro sum_list_nonneg) (auto intro!: sum_list_nonneg offset_gain_nonneg assms)

text \<open>
  Claim C8. For a non-negative critical-zone weight (the default is 1.8) the coverage
  score of every placement, in bounds or not, is non-negative: every amount the
  propagation loop adds is non-negative and the mean is taken over a non-empty list.
\<close>

theorem coverage_score_nonneg:
  assumes "0 \<le> critical_zone_weight"
  shows "0 \<le> coverage_score (coverage_map critical_zone_weight antennas) \<and> valid_positions \<noteq> []"
proof -
  have "0 \<le> coverage_map critical_zone_weight antennas c" for c
    unfolding coverage_map_def
    by (rule coverage_with_nonneg) (simp_all add: coverage_decay_def assms)
  then have "0 \<le> sum_list (map (coverage_map critical_zone_weight antennas) valid_positions)"
    by (intro sum_list_nonneg) auto
  then show ?thesis by (simp add: coverage_score_eq valid_positions_eq)
qed


theorem coverage_score_nonneg_witness:
  "(0::real) \<le> 18 / 10
   \<and> 0 \<le> coverage_score (coverage_map (18 / 10) [(1,1)]) \<and> valid_positions \<noteq> []"
  using coverage_score_nonneg [of "18 / 10" "[(1,1)]"] by simp

section \<open>Invalid placements\<close>

lemma offset_gain_off_grid:
  assumes "x < -4 \<or> fst map_size + 3 < x \<or> y < -4 \<or> snd map_size + 3 < y"
    and "i \<in> set [-4 .. 4]" "j \<in> set [-4 .. 4]"
  shows "offset_gain law czw x y i j c = 0"
  using assms by (auto simp: offset_gain_def)

lemma coverage_emitter_off_grid:
  assumes "fst a < -4 \<or> fst map_size + 3 < fst a \<or> snd a < -4 \<or> snd map_size + 3 < snd a"
  shows "coverage_emitter law czw a cm = cm"
proof
  fix c
  have "(\<Sum>i\<leftarrow>[-4 .. 4]. \<Sum>j\<leftarrow>[-4 .. 4]. offset_gain law czw (fst a) (snd a) i j c)
      = (\<Sum>i\<leftarrow>[-4 .. 4]. \<Sum>j\<leftarrow>[-4 .. 4]. 0)"
    by (intro arg_cong [where f = sum_list] map_cong refl offset_gain_off_grid assms)
  then show "coverage_emitter law czw a cm c = cm c"
    by (simp add: coverage_emitter_at del: upto_rec_numeral)
qed

lemma coverage_score_zero: "coverage_score (\<lambda>_. 0) = 0"
  by (simp add: coverage_score_eq)

lemma repulsion_empty: "repulsion_score [] = 0"
  by (simp add: repulsion_score_def fill_diagonal_def cdist_def)

lemma repulsion_single: "repulsion_score [a] = 0"
  by (simp add: repulsion_score_def fill_diagonal_def cdist_def exp_neg_third_def)

text \<open>
  Claim C3, as stated, at two placements that the design document calls precondition
  violations. The evaluator has no check and no failure path: for the out-of-bounds
  placement [(-5,-5)] it returns the fitness 0, and an emitter on the wall cell (0,0)
  radiates like any other, leaving exp(-sqrt 2 / 0.46) at the FREE cell (1,1).
\<close>

theorem evaluator_accepts_invalid_placement:
  "(-5, -5) \<notin> valid_set \<and> compute_coverage [(-5, -5)] (7 / 10) (18 / 10) = 0
   \<and> (0, 0) \<notin> valid_set \<and> coverage_map (18 / 10) [(0, 0)] (1, 1) = exp (- sqrt 2 / (46 / 100))"
proof -
  have "compute_coverage [(-5, -5)] (7 / 10) (18 / 10) = 0"
    by (simp add: coverage_map_def coverage_with_def coverage_emitter_off_grid compute_coverage_def
      coverage_score_zero repulsion_single)
  moreover have "coverage_map (18 / 10) [(0, 0)] (1, 1) = exp (- sqrt 2 / (46 / 100))"
    by (simp add: coverage_map_def coverage_with_at sum_window offset_gain_def reflect_gain_def
        shape_def map_size_def grid_at_def warehouse_map_def coverage_decay_def
        critical_zones_eq signalrange_def sqrt2_lt8)
  ultimately show ?thesis
    by (simp add: valid_set_def valid_positions_eq)
qed


text \<open>
  Claim C3, amended. The evaluator rejects nothing. Its bounds guard skips the window
  cells that fall outside the grid, so an emitter whose whole window lies outside the grid
  leaves the coverage map as it is, and a placement of that emitter alone has fitness 0,
  as has the empty placement (no emitter at all).
\<close>

theorem off_grid_emitter_ignored:
  assumes "fst a < -4 \<or> fst map_size + 3 < fst a \<or> snd a < -4 \<or> snd map_size + 3 < snd a"
  shows "coverage_map czw (ants @ [a]) = coverage_map czw ants
     \<and> compute_coverage [a] rw czw = 0 \<and> compute_coverage [] rw czw = 0"
  using assms
  by (simp add: coverage_map_def coverage_with_def coverage_emitter_off_grid compute_coverage_def
      coverage_score_zero repulsion_empty repulsion_single)


theorem off_grid_emitter_ignored_witness:
  "fst (-5::int, -5::int) < -4
   \<and> coverage_map (18 / 10) ([(1,1)] @ [(-5,-5)]) = coverage_map (18 / 10) [(1,1)]
   \<and> compute_coverage [(-5,-5)] (7 / 10) (18 / 10) = 0
   \<and> compute_coverage [] (7 / 10) (18 / 10) = 0"
  using off_grid_emitter_ignored [of "(-5,-5)" "18 / 10" "[(1,1)]" "7 / 10"] by simp

section \<open>Velocity update\<close>

text \<open>
  Claim C1. The source subtracts the global best from the position, not the position from
  the global best: its velocity is the inertia term minus (c1 r1 + c2 r2) times (global
  best minus position). For a particle at rest on (1,1), the global best (3,3) and
  r1 = r2 = 1/2 the source yields the velocity (-3,-3), pointing away from the global
  best, where the rule of the design document yields 3 in each coordinate.
\<close>

theorem velocity_update_points_away:
  "velocity_coord r1 r2 v p g = w * v - (c1 * r1 + c2 * r2) * (of_int g - of_int p)
   \<and> update_velocity (1 / 2) (1 / 2) [[(0, 0)]] [[(1, 1)]] [(3, 3)] = [[(- 3, - 3)]]
   \<and> velocity_spec_coord (1 / 2) (1 / 2) 0 1 3 = 3"
proof -
  have "velocity_coord r1 r2 v p g = w * v - (c1 * r1 + c2 * r2) * (of_int g - of_int p)"
    by (simp add: velocity_coord_def algebra_simps)
  moreover have "update_velocity (1 / 2) (1 / 2) [[(0, 0)]] [[(1, 1)]] [(3, 3)] = [[(- 3, - 3)]]"
    by (simp add: update_velocity_def velocity_emitter_def velocity_coord_def w_def c1_def c2_def)
  moreover have "velocity_spec_coord (1 / 2) (1 / 2) 0 1 3 = 3"
    by (simp add: velocity_spec_coord_def w_def c1_def c2_def)
  ultimately show ?thesis by (intro conjI)
qed

section \<open>Invariants of the main loop\<close>

lemma repair_emitter_valid: "old \<in> valid_set \<Longrightarrow> repair_emitter new old \<in> valid_set"
  by (simp add: repair_emitter_def)

lemma repair_valid:
  assumes "\<forall>p\<in>set parts. \<forall>c\<in>set p. c \<in> valid_set"
  shows "\<forall>p\<in>set (repair new_parts parts). \<forall>c\<in>set p. c \<in> valid_set"
  using assms
  by (auto simp: repair_def repair_emitter_def dest!: set_zip_rightD)

lemma np_max_mem: "np_max xs = Inr m \<Longrightarrow> m \<in> set xs"
proof -
  have "fold max rest x \<in> set (x # rest)" for x :: real and rest
    by (induction rest arbitrary: x) (auto simp: max_def)
  then show "np_max xs = Inr m \<Longrightarrow> m \<in> set xs"
    by (auto simp: np_max_def split: list.splits)
qed

lemma np_max_greatest:
  assumes "np_max xs = Inr m"
  shows "m \<in> set xs \<and> (\<forall>x\<in>set xs. x \<le> m)"
proof -
  from assms obtain a rest where xs: "xs = a # rest" and m: "m = fold max rest a"
    by (auto simp: np_max_def split: list.splits)
  have "m = Max (set (a # rest))"
    by (simp only: m Max.set_eq_fold)
  then show ?thesis
    by (simp add: xs del: Max_insert set_simps)
qed

lemma np_argmax_less: "np_argmax xs = Inr k \<Longrightarrow> k < length xs"
proof -
  assume a: "np_argmax xs = Inr k"
  then obtain m where m: "np_max xs = Inr m" "k = length (takeWhile (\<lambda>v. v \<noteq> m) xs)"
    by (auto simp: np_argmax_def split: sum.splits)
  then have "m \<in> set xs" by (simp add: np_max_mem)
  then have "length (takeWhile (\<lambda>v. v \<noteq> m) xs) < length xs"
    by (induction xs) auto
  with m show ?thesis by simp
qed

lemma np_max_nonempty: "xs \<noteq> [] \<Longrightarrow> \<exists>m. np_max xs = Inr m"
  by (cases xs) (simp_all add: np_max_def)

lemma np_argmax_nonempty: "xs \<noteq> [] \<Longrightarrow> \<exists>k. np_argmax xs = Inr k"
  by (cases xs) (simp_all add: np_argmax_def np_max_def)


lemma iterate_Inr:
  assumes "iterate r s = Inr s'"
  obtains m k gb where
    "np_max (fitness_of s) = Inr m" "np_argmax (fitness_of s) = Inr k"
    "best_fitness s' = (if best_fitness s < Some m then Some m else best_fitness s)"
    "global_best s' = Some gb"
    "Some gb = (if best_fitness s < Some m then Some (particles s ! k) else global_best s)"
    "fitness_history s' = fitness_history s @ [best_fitness s']"
    "velocity s' = update_velocity (fst r) (snd r) (velocity s) (particles s) gb"
    "particles s' = repair (new_positions (particles s) (velocity s')) (particles s)"
proof -
  from assms obtain m where m: "np_max (fitness_of s) = Inr m"
    unfolding iterate_def Let_def fitness_of_def by (auto split: sum.splits)
  then obtain k where k: "np_argmax (fitness_of s) = Inr k"
    by (auto simp: np_argmax_def)
  from assms m k that [of m k] show thesis
    unfolding iterate_def Let_def fitness_of_def [symmetric]
    by (auto split: option.splits if_splits)
qed

lemma iterate_total:
  assumes "particles s \<noteq> []" "best_fitness s = None \<or> global_best s \<noteq> None"
  shows "\<exists>s'. iterate r s = Inr s'"
proof -
  from assms(1) have ne: "fitness_of s \<noteq> []" by (simp add: fitness_of_def)
  from np_max_nonempty [OF ne] obtain m where m: "np_max (fitness_of s) = Inr m" by blast
  from np_argmax_nonempty [OF ne] obtain k where k: "np_argmax (fitness_of s) = Inr k" by blast
  show ?thesis
    using assms(2) m k
    unfolding iterate_def Let_def fitness_of_def [symmetric]
    by (auto split: option.splits)
qed

lemma length_update_velocity:
  "length (update_velocity r1 r2 vel parts gb) = min (length vel) (length parts)"
  by (simp add: update_velocity_def)

lemma length_new_positions:
  "length (new_positions parts vel) = min (length parts) (length vel)"
  by (simp add: new_positions_def)

lemma length_repair:
  "length (repair new_parts parts) = min (length new_parts) (length parts)"
  by (simp add: repair_def)

lemma iterate_steady:
  assumes "steady s"
  shows "\<exists>s'. iterate r s = Inr s' \<and> steady s'
           \<and> length (particles s') = length (particles s)
           \<and> length (fitness_history s') = Suc (length (fitness_history s))"
proof -
  from assms have ne: "particles s \<noteq> []" and gb: "best_fitness s = None \<or> global_best s \<noteq> None"
    and len: "length (velocity s) = length (particles s)"
    and srt: "sorted (fitness_history s)" and bnd: "\<forall>h\<in>set (fitness_history s). h \<le> best_fitness s"
    and fin: "None \<notin> set (fitness_history s)"
    by (simp_all add: steady_def)
  from iterate_total [OF ne gb] obtain s' where s': "iterate r s = Inr s'" by blast
  from s' obtain m k g where
      bf: "best_fitness s' = (if best_fitness s < Some m then Some m else best_fitness s)"
    and g: "global_best s' = Some g"
    and h: "fitness_history s' = fitness_history s @ [best_fitness s']"
    and v: "velocity s' = update_velocity (fst r) (snd r) (velocity s) (particles s) g"
    and p: "particles s' = repair (new_positions (particles s) (velocity s')) (particles s)"
    by (rule iterate_Inr)
  from bf have up: "best_fitness s \<le> best_fitness s'" by (simp add: less_imp_le)
  have some: "best_fitness s' \<noteq> None"
  proof (cases "best_fitness s")
    case None
    with bf show ?thesis by simp
  next
    case (Some b)
    with bf show ?thesis by (simp split: if_splits)
  qed
  have lv: "length (velocity s') = length (particles s)"
    by (simp add: v length_update_velocity len)
  have lp: "length (particles s') = length (particles s)"
    by (simp add: p length_repair length_new_positions lv)
  have "sorted (fitness_history s')"
    using srt bnd up by (auto simp: h sorted_append intro: order_trans)
  moreover have "\<forall>x\<in>set (fitness_history s'). x \<le> best_fitness s'"
    using bnd up by (auto simp: h intro: order_trans)
  moreover have "None \<notin> set (fitness_history s')"
    using fin some by (auto simp: h)
  ultimately have "steady s'"
    using lv lp ne g by (auto simp: steady_def)
  with s' h lp show ?thesis by simp
qed

lemma run_steady:
  assumes "steady s"
  shows "\<exists>s'. run rs s = Inr s' \<and> steady s'
           \<and> length (particles s') = length (particles s)
           \<and> length (fitness_history s') = length (fitness_history s) + length rs"
  using assms
proof (induction rs arbitrary: s)
  case Nil
  then show ?case by simp
next
  case (Cons r rs)
  from iterate_steady [OF Cons.prems, of r] obtain s1 where
    s1: "iterate r s = Inr s1" "steady s1"
        "length (particles s1) = length (particles s)"
        "length (fitness_history s1) = Suc (length (fitness_history s))"
    by blast
  from Cons.IH [OF s1(2)] obtain s' where
    "run rs s1 = Inr s'" "steady s'"
    "length (particles s') = length (particles s1)"
    "length (fitness_history s') = length (fitness_history s1) + length rs"
    by blast
  with s1 show ?case by simp
qed

lemma init_steady: "choice \<noteq> [] \<Longrightarrow> steady (init_swarm choice)"
  by (simp add: steady_def init_swarm_def)

lemma iterate_valid:
  assumes "\<forall>p\<in>set (particles s). \<forall>c\<in>set p. c \<in> valid_set" "iterate r s = Inr s'"
  shows "\<forall>p\<in>set (particles s'). \<forall>c\<in>set p. c \<in> valid_set"
proof -
  from assms(2) obtain m k g where
    "particles s' = repair (new_positions (particles s) (velocity s')) (particles s)"
    by (rule iterate_Inr)
  with repair_valid [OF assms(1)] show ?thesis by simp
qed

lemma run_valid:
  assumes "\<forall>p\<in>set (particles s). \<forall>c\<in>set p. c \<in> valid_set" "run rs s = Inr s'"
  shows "\<forall>p\<in>set (particles s'). \<forall>c\<in>set p. c \<in> valid_set"
  using assms
proof (induction rs arbitrary: s)
  case Nil
  then show ?case by simp
next
  case (Cons r rs)
  from Cons.prems(2) obtain s1 where s1: "iterate r s = Inr s1" "run rs s1 = Inr s'"
    by (auto split: sum.splits)
  from iterate_valid [OF Cons.prems(1) s1(1)] Cons.IH s1(2) show ?case by blast
qed

lemma init_valid:
  assumes "\<forall>row\<in>set choice. \<forall>k\<in>set row. k < length valid_positions"
  shows "\<forall>p\<in>set (particles (init_swarm choice)). \<forall>c\<in>set p. c \<in> valid_set"
  using assms by (auto simp: init_swarm_def valid_set_def)

lemma set_zipD: "(a, b) \<in> set (zip xs ys) \<Longrightarrow> a \<in> set xs \<and> b \<in> set ys"
  by (auto dest: set_zip_leftD set_zip_rightD)

lemma iterate_shaped:
  assumes "shaped K s" "iterate r s = Inr s'"
  shows "shaped K s'"
proof -
  from assms(1) have ps: "\<forall>p\<in>set (particles s). length p = K"
    and vs: "\<forall>v\<in>set (velocity s). length v = K"
    and gs: "\<forall>gb. global_best s = Some gb \<longrightarrow> length gb = K"
    by (simp_all add: shaped_def)
  from assms(2) obtain m k g where
      k: "np_argmax (fitness_of s) = Inr k"
    and g: "global_best s' = Some g"
    and ge: "Some g = (if best_fitness s < Some m then Some (particles s ! k) else global_best s)"
    and v: "velocity s' = update_velocity (fst r) (snd r) (velocity s) (particles s) g"
    and p: "particles s' = repair (new_positions (particles s) (velocity s')) (particles s)"
    by (rule iterate_Inr)
  from np_argmax_less [OF k] have "k < length (particles s)" by (simp add: fitness_of_def)
  with ps have "length (particles s ! k) = K" by simp
  with ge gs have lg: "length g = K" by (auto split: if_splits)
  have v': "\<forall>v\<in>set (velocity s'). length v = K"
    using ps vs lg by (auto simp: v update_velocity_def dest!: set_zipD)
  have "\<forall>p\<in>set (particles s'). length p = K"
    using ps v' by (auto simp: p repair_def new_positions_def dest!: set_zipD)
  with v' g lg show ?thesis by (simp add: shaped_def)
qed


lemma run_shaped:
  assumes "shaped K s" "run rs s = Inr s'"
  shows "shaped K s'"
  using assms
proof (induction rs arbitrary: s)
  case Nil
  then show ?case by simp
next
  case (Cons r rs)
  from Cons.prems(2) obtain s1 where s1: "iterate r s = Inr s1" "run rs s1 = Inr s'"
    by (auto split: sum.splits)
  from iterate_shaped [OF Cons.prems(1) s1(1)] Cons.IH s1(2) show ?case by blast
qed

lemma init_shaped: "\<forall>row\<in>set choice. length row = K \<Longrightarrow> shaped K (init_swarm choice)"
  by (simp add: shaped_def init_swarm_def)

lemma repair_nth:
  assumes "length new_parts = length parts" "i < length parts"
    "length (new_parts ! i) = length (parts ! i)" "j < length (parts ! i)"
  shows "repair new_parts parts ! i ! j = repair_emitter (new_parts ! i ! j) (parts ! i ! j)"
  using assms by (simp add: repair_def)

text \<open>
  Claim C4. Started from particles drawn out of \<open>valid_positions\<close>, the loop runs through
  any number of iterations without failing, keeps the shape of the swarm, and after each
  of them every emitter coordinate of every particle is in \<open>valid_set\<close>. Repair works
  emitter by emitter: the coordinate pair at (i, j) is the rounded candidate when that is
  in \<open>valid_set\<close> and the pair before the update otherwise.
\<close>

theorem repair_invariant:
  assumes "choice \<noteq> []"
    and "\<forall>row\<in>set choice. length row = K \<and> (\<forall>k\<in>set row. k < length valid_positions)"
  shows "(\<exists>s'. run rs (init_swarm choice) = Inr s'
            \<and> length (particles s') = length choice
            \<and> (\<forall>p\<in>set (particles s'). length p = K \<and> (\<forall>c\<in>set p. c \<in> valid_set)))
     \<and> (\<forall>new old. repair_emitter new old = (if new \<in> valid_set then new else old))
     \<and> (\<forall>new_parts parts i j.
           length new_parts = length parts \<longrightarrow> i < length parts \<longrightarrow>
           length (new_parts ! i) = length (parts ! i) \<longrightarrow> j < length (parts ! i) \<longrightarrow>
           repair new_parts parts ! i ! j = repair_emitter (new_parts ! i ! j) (parts ! i ! j))"
proof -
  from run_steady [OF init_steady [OF assms(1)], of rs] obtain s' where
    s': "run rs (init_swarm choice) = Inr s'"
        "length (particles s') = length (particles (init_swarm choice))"
    by blast
  from assms(2) have "shaped K (init_swarm choice)" by (simp add: init_shaped)
  from run_shaped [OF this s'(1)] have sh: "\<forall>p\<in>set (particles s'). length p = K"
    by (simp add: shaped_def)
  from assms(2) have "\<forall>p\<in>set (particles (init_swarm choice)). \<forall>c\<in>set p. c \<in> valid_set"
    by (intro init_valid) blast
  from run_valid [OF this s'(1)] have va: "\<forall>p\<in>set (particles s'). \<forall>c\<in>set p. c \<in> valid_set" .
  have "length (particles s') = length choice"
    using s'(2) by (simp add: init_swarm_def)
  with s'(1) sh va have "\<exists>s'. run rs (init_swarm choice) = Inr s'
            \<and> length (particles s') = length choice
            \<and> (\<forall>p\<in>set (particles s'). length p = K \<and> (\<forall>c\<in>set p. c \<in> valid_set))"
    by blast
  then show ?thesis
    by (simp add: repair_emitter_def repair_nth)
qed

theorem repair_invariant_witness:
  "[[0::nat, 3]] \<noteq> [] \<and> length [0::nat, 3] = 2 \<and> (3::nat) < length valid_positions
   \<and> (\<exists>s'. run [(1 / 2, 1 / 4), (0, 3 / 4)] (init_swarm [[0, 3]]) = Inr s'
            \<and> length (particles s') = length [[0::nat, 3]]
            \<and> (\<forall>p\<in>set (particles s'). length p = 2 \<and> (\<forall>c\<in>set p. c \<in> valid_set)))"
proof -
  have "\<forall>row\<in>set [[0::nat, 3]]. length row = 2 \<and> (\<forall>k\<in>set row. k < length valid_positions)"
    by (simp add: valid_positions_eq)
  from repair_invariant [OF _ this, of "[(1 / 2, 1 / 4), (0, 3 / 4)]"] show ?thesis
    by (simp add: valid_positions_eq del: run.simps)
qed

text \<open>
  Claim C5. For a non-empty swarm the loop completes any number T of iterations, and the
  fitness history then has exactly T entries, all finite, in non-decreasing order. Each
  iteration appends the incumbent best fitness after replacing it by the maximum of the
  iteration's fitness values (a value of the fitness array that no other value of the
  array exceeds) when, and only when, that maximum is strictly greater.
\<close>

theorem fitness_history_monotone:
  assumes "choice \<noteq> []"
  shows "(\<exists>s'. run rs (init_swarm choice) = Inr s' \<and> length (fitness_history s') = length rs
            \<and> sorted (fitness_history s') \<and> None \<notin> set (fitness_history s'))
     \<and> (\<forall>r s s'. iterate r s = Inr s' \<longrightarrow>
           (\<exists>m. m \<in> set (map (\<lambda>p. compute_coverage p (7 / 10) (18 / 10)) (particles s))
              \<and> (\<forall>x\<in>set (map (\<lambda>p. compute_coverage p (7 / 10) (18 / 10)) (particles s)). x \<le> m)
              \<and> best_fitness s' = (if best_fitness s < Some m then Some m else best_fitness s)
              \<and> fitness_history s' = fitness_history s @ [best_fitness s']))"
proof -
  from run_steady [OF init_steady [OF assms], of rs] obtain s' where
    "run rs (init_swarm choice) = Inr s'" "steady s'"
    "length (fitness_history s') = length (fitness_history (init_swarm choice)) + length rs"
    by blast
  then have "\<exists>s'. run rs (init_swarm choice) = Inr s' \<and> length (fitness_history s') = length rs
            \<and> sorted (fitness_history s') \<and> None \<notin> set (fitness_history s')"
    by (auto simp: steady_def init_swarm_def)
  moreover have "\<exists>m. m \<in> set (map (\<lambda>p. compute_coverage p (7 / 10) (18 / 10)) (particles s))
              \<and> (\<forall>x\<in>set (map (\<lambda>p. compute_coverage p (7 / 10) (18 / 10)) (particles s)). x \<le> m)
              \<and> best_fitness s' = (if best_fitness s < Some m then Some m else best_fitness s)
              \<and> fitness_history s' = fitness_history s @ [best_fitness s']"
    if "iterate r s = Inr s'" for r s s'
  proof -
    from that obtain m k g where
        m: "np_max (fitness_of s) = Inr m"
      and bf: "best_fitness s' = (if best_fitness s < Some m then Some m else best_fitness s)"
      and h: "fitness_history s' = fitness_history s @ [best_fitness s']"
      by (rule iterate_Inr)
    from np_max_greatest [OF m] bf h show ?thesis
      unfolding fitness_of_def by blast
  qed
  ultimately show ?thesis by blast
qed

theorem fitness_history_monotone_witness:
  "[[0::nat, 3]] \<noteq> []
   \<and> (\<exists>s'. run [(1 / 2, 1 / 4), (0, 3 / 4)] (init_swarm [[0, 3]]) = Inr s'
        \<and> length (fitness_history s') = 2 \<and> sorted (fitness_history s')
        \<and> None \<notin> set (fitness_history s'))"
  using fitness_history_monotone [of "[[0, 3]]" "[(1 / 2, 1 / 4), (0, 3 / 4)]"]
  by (simp add: numeral_2_eq_2 del: run.simps)

end
